theory Spec2Isabelle
  imports Complex_Main "HOL-Library.AList"
begin

section \<open>The coliving projection engine\<close>

text \<open>
  A shallow embedding of the calculation engine of the coliving simulator
  (\<^verbatim>\<open>app_coliving_simulation_full_wconfig.py\<close>; the same functions occur, unchanged, in
  \<^verbatim>\<open>app_coliving_simulation_full.py\<close> and \<^verbatim>\<open>coliving_simul.py\<close>).

  Python's \<^verbatim>\<open>float\<close> is embedded as \<^typ>\<open>real\<close>: every statement below is a statement
  about the formulas of the code in exact arithmetic, except where a rounding function is
  an explicit parameter (\<open>build_amortization_schedule_fl\<close>). Overflow and NaN are outside the
  embedding. Python's \<^verbatim>\<open>int\<close> is \<^typ>\<open>int\<close>. A \<^verbatim>\<open>dict\<close> is an association list in
  insertion order, read with \<^const>\<open>map_of\<close> and written with \<^const>\<open>AList.update\<close>
  (which, like a Python dict, keeps the position of a key that is already present).
  What the code raises is a value of \<open>py_error\<close>.
\<close>

datatype py_error = ZeroDivisionError | UnboundLocalError

subsection \<open>Data model\<close>

record RoomType =
  name :: string
  count :: int

record SeasonPricing =
  price_per_night :: real
  price_per_week :: real
  price_per_month :: real
  share_nightly :: real
  share_weekly :: real
  share_monthly :: real

subsection \<open>\<^verbatim>\<open>SeasonPricing.equivalent_nightly_rate\<close>\<close>

definition equivalent_nightly_rate :: "SeasonPricing \<Rightarrow> real" where
  "equivalent_nightly_rate self =
     (let total_share = share_nightly self + share_weekly self + share_monthly self in
      if total_share \<le> 0 then 0
      else
        let sn = share_nightly self / total_share;
            sw = share_weekly self / total_share;
            sm = share_monthly self / total_share;
            nightly_part = sn * price_per_night self;
            weekly_part = sw * (if price_per_week self \<noteq> 0 then price_per_week self / 7 else 0);
            monthly_part = sm * (if price_per_month self \<noteq> 0 then price_per_month self / 30 else 0)
        in nightly_part + weekly_part + monthly_part)"

text \<open>All three shares of a pricing multiplied by the same constant, the prices unchanged.\<close>

definition scale_shares :: "real \<Rightarrow> SeasonPricing \<Rightarrow> SeasonPricing" where
  "scale_shares c p =
     p\<lparr>share_nightly := c * share_nightly p,
       share_weekly := c * share_weekly p,
       share_monthly := c * share_monthly p\<rparr>"

subsection \<open>\<^verbatim>\<open>build_amortization_schedule\<close>\<close>

text \<open>
  One row of the schedule (a dict with the keys \<^verbatim>\<open>year\<close>, \<^verbatim>\<open>payment\<close>, \<^verbatim>\<open>interest\<close>,
  \<^verbatim>\<open>principal\<close>, \<^verbatim>\<open>remaining\<close>). \<open>amortization_rows\<close> is the \<^verbatim>\<open>for year in range(1, n + 1)\<close>
  loop, the balance carried from row to row. \<^verbatim>\<open>years\<close> is a Python \<^verbatim>\<open>int\<close> (the caller
  passes an integer input), so \<^verbatim>\<open>int(years)\<close> is the identity. The divisions
  \<^verbatim>\<open>debt_amount / n\<close> and \<^verbatim>\<open>r / (1 - (1 + r) ** -n)\<close>, and \<^verbatim>\<open>(1 + r) ** -n\<close> at base 0,
  raise \<^verbatim>\<open>ZeroDivisionError\<close>.
\<close>

record AmortizationRow =
  year :: int
  payment :: real
  interest :: real
  principal :: real
  remaining :: real

fun amortization_rows :: "real \<Rightarrow> real \<Rightarrow> real \<Rightarrow> int list \<Rightarrow> AmortizationRow list" where
  "amortization_rows annual_payment r remaining_before [] = []"
| "amortization_rows annual_payment r remaining_before (y # ys) =
     (let interest = remaining_before * r;
          principal = annual_payment - interest;
          remaining = max 0 (remaining_before - principal)
      in \<lparr>year = y, payment = annual_payment, interest = interest,
           principal = principal, remaining = remaining\<rparr>
         # amortization_rows annual_payment r remaining ys)"

definition build_amortization_schedule ::
  "real \<Rightarrow> real \<Rightarrow> int \<Rightarrow> py_error + AmortizationRow list" where
  "build_amortization_schedule debt_amount annual_rate years =
     (if debt_amount \<le> 0 \<or> annual_rate < 0 \<or> years \<le> 0 then Inr []
      else
        let r = annual_rate; n = years in
        if r = 0 then
          (if n = 0 then Inl ZeroDivisionError
           else Inr (amortization_rows (debt_amount / real_of_int n) r debt_amount [1..n]))
        else if 1 + r = 0 \<and> 0 < n then Inl ZeroDivisionError
        else if 1 - (1 + r) powi (- n) = 0 then Inl ZeroDivisionError
        else Inr (amortization_rows (debt_amount * (r / (1 - (1 + r) powi (- n)))) r
                    debt_amount [1..n]))"

text \<open>
  The same function with the rounding of the machine arithmetic made explicit: \<open>fl\<close> is applied
  to the result of every floating-point operation (with \<open>fl = (\<lambda>x. x)\<close> this is the function
  above). \<^verbatim>\<open>years\<close> is any number here and \<open>py_int\<close> is Python's \<^verbatim>\<open>int(years)\<close>, which
  truncates towards zero.
\<close>

definition py_int :: "real \<Rightarrow> int" where
  "py_int x = (if 0 \<le> x then \<lfloor>x\<rfloor> else \<lceil>x\<rceil>)"

fun amortization_rows_fl ::
  "(real \<Rightarrow> real) \<Rightarrow> real \<Rightarrow> real \<Rightarrow> real \<Rightarrow> int list \<Rightarrow> AmortizationRow list" where
  "amortization_rows_fl fl annual_payment r remaining_before [] = []"
| "amortization_rows_fl fl annual_payment r remaining_before (y # ys) =
     (let interest = fl (remaining_before * r);
          principal = fl (annual_payment - interest);
          remaining = max 0 (fl (remaining_before - principal))
      in \<lparr>year = y, payment = annual_payment, interest = interest,
           principal = principal, remaining = remaining\<rparr>
         # amortization_rows_fl fl annual_payment r remaining ys)"

definition build_amortization_schedule_fl ::
  "(real \<Rightarrow> real) \<Rightarrow> real \<Rightarrow> real \<Rightarrow> real \<Rightarrow> py_error + AmortizationRow list" where
  "build_amortization_schedule_fl fl debt_amount annual_rate years =
     (if debt_amount \<le> 0 \<or> annual_rate < 0 \<or> years \<le> 0 then Inr []
      else
        let r = annual_rate; n = py_int years in
        if r = 0 then
          (if n = 0 then Inl ZeroDivisionError
           else Inr (amortization_rows_fl fl (fl (debt_amount / real_of_int n)) r
                       debt_amount [1..n]))
        else
          let base = fl (1 + r) in
          if base = 0 \<and> 0 < n then Inl ZeroDivisionError
          else
            let denominator = fl (1 - fl (base powi (- n))) in
            if denominator = 0 then Inl ZeroDivisionError
            else Inr (amortization_rows_fl fl (fl (debt_amount * fl (r / denominator))) r
                        debt_amount [1..n]))"

text \<open>
  The doubles from 1 to 2 are the multiples of \<open>2 ^ - 52\<close>; \<open>nearest_multiple_of_ulp\<close> rounds to
  the nearest of them, as double arithmetic does with a result that lies between 1 and 2.
\<close>

definition nearest_multiple_of_ulp :: "real \<Rightarrow> real" where
  "nearest_multiple_of_ulp x = real_of_int (round (x * 2 ^ 52)) / 2 ^ 52"

subsection \<open>\<^verbatim>\<open>simulate_annual_revenue\<close>\<close>

record Season =
  name :: string
  days :: int
  occupancy :: "(string \<times> real) list"
  pricing :: "(string \<times> SeasonPricing) list"

text \<open>
  The dicts built by the function: one entry of \<^verbatim>\<open>by_room_type\<close> (\<open>nightly_rate\<close> is the key
  \<^verbatim>\<open>equivalent_nightly_rate\<close>), one entry of \<^verbatim>\<open>per_season\<close> (\<open>season_revenue\<close> is its key
  \<^verbatim>\<open>revenue\<close>) and the result.
\<close>

record RoomBreakdown =
  nightly_rate :: real
  occupancy_rate :: real
  total_room_nights :: int
  occupied_nights :: real
  revenue :: real

record SeasonResult =
  season_revenue :: real
  by_room_type :: "(string \<times> RoomBreakdown) list"

record Results =
  per_season :: "(string \<times> SeasonResult) list"
  total_revenue :: real

text \<open>
  The body of the inner loop over \<^verbatim>\<open>room_types.items()\<close>, on the pair of the running
  \<^verbatim>\<open>season_revenue\<close> (here \<open>season_rev\<close>) and \<^verbatim>\<open>room_breakdown\<close>; \<^verbatim>\<open>continue\<close> leaves
  both unchanged.
\<close>

definition room_step ::
  "Season \<Rightarrow> string \<times> RoomType \<Rightarrow> real \<times> (string \<times> RoomBreakdown) list
     \<Rightarrow> real \<times> (string \<times> RoomBreakdown) list" where
  "room_step season item acc =
     (case item of (rt_name, room_type) \<Rightarrow>
      case acc of (season_rev, room_breakdown) \<Rightarrow>
        let occ_rate = (case map_of (occupancy season) rt_name of None \<Rightarrow> 0 | Some v \<Rightarrow> v) in
        case map_of (pricing season) rt_name of
          None \<Rightarrow> (season_rev, room_breakdown)
        | Some pr \<Rightarrow>
            let rate = equivalent_nightly_rate pr;
                total_room_nights = count room_type * days season;
                occupied_nights = real_of_int total_room_nights * occ_rate;
                revenue = occupied_nights * rate
            in (season_rev + revenue,
                AList.update rt_name
                  \<lparr>nightly_rate = rate, occupancy_rate = occ_rate,
                   total_room_nights = total_room_nights,
                   occupied_nights = occupied_nights, revenue = revenue\<rparr>
                  room_breakdown))"

definition simulate_season :: "(string \<times> RoomType) list \<Rightarrow> Season \<Rightarrow> SeasonResult" where
  "simulate_season room_types season =
     (case fold (room_step season) room_types (0, []) of
        (season_rev, room_breakdown) \<Rightarrow>
          \<lparr>season_revenue = season_rev, by_room_type = room_breakdown\<rparr>)"

definition season_step :: "(string \<times> RoomType) list \<Rightarrow> Season \<Rightarrow> Results \<Rightarrow> Results" where
  "season_step room_types season results =
     (let res = simulate_season room_types season in
      \<lparr>per_season = AList.update (name season) res (per_season results),
       total_revenue = total_revenue results + season_revenue res\<rparr>)"

definition simulate_annual_revenue :: "(string \<times> RoomType) list \<Rightarrow> Season list \<Rightarrow> Results" where
  "simulate_annual_revenue room_types seasons =
     fold (season_step room_types) seasons \<lparr>per_season = [], total_revenue = 0\<rparr>"

text \<open>
  For the statements: the entry that one pass of the inner loop stores under \<open>rt_name\<close> when
  the season prices that room type with \<open>pr\<close>.
\<close>

definition room_entry :: "Season \<Rightarrow> string \<Rightarrow> RoomType \<Rightarrow> SeasonPricing \<Rightarrow> RoomBreakdown" where
  "room_entry season rt_name room_type pr =
     \<lparr>nightly_rate = equivalent_nightly_rate pr,
      occupancy_rate = (case map_of (occupancy season) rt_name of None \<Rightarrow> 0 | Some v \<Rightarrow> v),
      total_room_nights = count room_type * days season,
      occupied_nights =
        real_of_int (count room_type * days season)
        * (case map_of (occupancy season) rt_name of None \<Rightarrow> 0 | Some v \<Rightarrow> v),
      revenue =
        real_of_int (count room_type * days season)
        * (case map_of (occupancy season) rt_name of None \<Rightarrow> 0 | Some v \<Rightarrow> v)
        * equivalent_nightly_rate pr\<rparr>"

subsection \<open>\<^verbatim>\<open>compute_irr\<close>\<close>

text \<open>
  \<^verbatim>\<open>sum(cf / ((1 + mid) ** t) for t, cf in enumerate(cashflows))\<close>: the terms are added from
  the left; a term whose divisor is 0 raises.
\<close>

fun npv_sum :: "real \<Rightarrow> real \<Rightarrow> (nat \<times> real) list \<Rightarrow> py_error + real" where
  "npv_sum mid acc [] = Inr acc"
| "npv_sum mid acc ((t, cf) # rest) =
     (if (1 + mid) ^ t = 0 then Inl ZeroDivisionError
      else npv_sum mid (acc + cf / (1 + mid) ^ t) rest)"

definition npv :: "real \<Rightarrow> real list \<Rightarrow> py_error + real" where
  "npv mid cashflows = npv_sum mid 0 (enumerate 0 cashflows)"

text \<open>
  The \<^verbatim>\<open>for _ in range(max_iter)\<close> loop with the iterations left as a counter. The last
  argument is the variable \<^verbatim>\<open>mid\<close>, unbound (\<open>None\<close>) until the first iteration assigns it:
  \<^verbatim>\<open>return mid\<close> after a loop that never ran raises \<^verbatim>\<open>UnboundLocalError\<close>.
\<close>

fun compute_irr_loop ::
  "real list \<Rightarrow> real \<Rightarrow> nat \<Rightarrow> real \<Rightarrow> real \<Rightarrow> real option \<Rightarrow> py_error + real" where
  "compute_irr_loop cashflows tol 0 low high mid =
     (case mid of None \<Rightarrow> Inl UnboundLocalError | Some m \<Rightarrow> Inr m)"
| "compute_irr_loop cashflows tol (Suc k) low high mid_before =
     (let mid = (low + high) / 2 in
      case npv mid cashflows of
        Inl e \<Rightarrow> Inl e
      | Inr v \<Rightarrow>
          if \<bar>v\<bar> < tol then Inr mid
          else if v > 0 then compute_irr_loop cashflows tol k mid high (Some mid)
          else compute_irr_loop cashflows tol k low mid (Some mid))"

definition compute_irr :: "real list \<Rightarrow> real \<Rightarrow> int \<Rightarrow> py_error + real option" where
  "compute_irr cashflows tol max_iter =
     (if list_all (\<lambda>cf. cf \<ge> 0) cashflows \<or> list_all (\<lambda>cf. cf \<le> 0) cashflows then Inr None
      else case compute_irr_loop cashflows tol (nat max_iter) (- 9 / 10) 1 None of
             Inl e \<Rightarrow> Inl e
           | Inr m \<Rightarrow> Inr (Some m))"

text \<open>The defaults of the signature, \<^verbatim>\<open>tol=1e-6, max_iter=1000\<close>.\<close>

definition default_tol :: real where
  "default_tol = 1 / 10 ^ 6"

definition default_max_iter :: int where
  "default_max_iter = 1000"

text \<open>
  For the statements: the net present value as a plain sum, and the search interval after
  a number of narrowing steps when no midpoint has been returned.
\<close>

definition npv_value :: "real \<Rightarrow> real list \<Rightarrow> real" where
  "npv_value mid cashflows = (\<Sum>(t, cf)\<leftarrow>enumerate 0 cashflows. cf / (1 + mid) ^ t)"

definition narrow :: "real list \<Rightarrow> real \<times> real \<Rightarrow> real \<times> real" where
  "narrow cashflows lh =
     (case lh of (low, high) \<Rightarrow>
        let mid = (low + high) / 2 in
        if npv_value mid cashflows > 0 then (mid, high) else (low, mid))"

definition midpoint_after :: "real list \<Rightarrow> nat \<Rightarrow> real" where
  "midpoint_after cashflows k =
     (case (narrow cashflows ^^ k) (- 9 / 10, 1) of (low, high) \<Rightarrow> (low + high) / 2)"

subsection \<open>The scenario loop of \<^verbatim>\<open>main\<close>\<close>

text \<open>
  One value of \<^verbatim>\<open>seasons_base_config\<close> (a dict with the keys \<^verbatim>\<open>days\<close>,
  \<^verbatim>\<open>occupancy_base\<close>, \<^verbatim>\<open>pricing_base\<close>; an entry of \<^verbatim>\<open>pricing_base\<close> has the six keys of a
  \<open>SeasonPricing\<close>).
\<close>

record SeasonConfig =
  cfg_days :: int
  occupancy_base :: "(string \<times> real) list"
  pricing_base :: "(string \<times> SeasonPricing) list"

definition scenario_occupancy :: "real \<Rightarrow> (string \<times> real) list \<Rightarrow> (string \<times> real) list" where
  "scenario_occupancy occ_factor occ_base_items =
     fold (\<lambda>item occupancy. case item of (rt_name, occ_base) \<Rightarrow>
             let occ_scen = min 1 (occ_base * occ_factor) in
             AList.update rt_name occ_scen occupancy)
          occ_base_items []"

definition scenario_pricing ::
  "real \<Rightarrow> (string \<times> SeasonPricing) list \<Rightarrow> (string \<times> SeasonPricing) list" where
  "scenario_pricing price_factor pricing_base_items =
     fold (\<lambda>item pricing. case item of (rt_name, pb) \<Rightarrow>
             AList.update rt_name
               \<lparr>price_per_night = price_per_night pb * price_factor,
                price_per_week = price_per_week pb * price_factor,
                price_per_month = price_per_month pb * price_factor,
                share_nightly = share_nightly pb,
                share_weekly = share_weekly pb,
                share_monthly = share_monthly pb\<rparr>
               pricing)
          pricing_base_items []"

definition scenario_seasons ::
  "real \<Rightarrow> real \<Rightarrow> (string \<times> SeasonConfig) list \<Rightarrow> Season list" where
  "scenario_seasons occ_factor price_factor seasons_base_config =
     map (\<lambda>item. case item of (season_name, cfg) \<Rightarrow>
            \<lparr>name = season_name, days = cfg_days cfg,
             occupancy = scenario_occupancy occ_factor (occupancy_base cfg),
             pricing = scenario_pricing price_factor (pricing_base cfg)\<rparr>)
         seasons_base_config"

text \<open>
  The year loop of the projection. \<open>ProjectionInputs\<close> gathers the local variables of
  \<^verbatim>\<open>main\<close> that the loop body reads; \<open>YearRow\<close> is the entry appended to \<^verbatim>\<open>dscr_rows\<close>
  (\<open>year_t\<close> is its year key) together with the cash flow \<open>fcfe_t\<close> appended to
  \<^verbatim>\<open>cashflows\<close>. The loop runs over \<^verbatim>\<open>range(1, horizon_years + 1)\<close>, so the exponent
  \<^verbatim>\<open>year - 1\<close> is never negative.
\<close>

record ProjectionInputs =
  ebitda_year1 :: real
  growth_rate :: real
  amort_schedule :: "AmortizationRow list"
  annual_depreciation :: real
  tax_rate :: real
  horizon_years :: int
  exit_multiple :: real
  exit_cost_rate :: real

record YearRow =
  year_t :: int
  ebitda_t :: real
  cfads_t :: real
  debt_service_t :: real
  dscr_t :: "real option"
  interest_t :: real
  principal_t :: real
  remaining_debt_t :: real
  fcfe_t :: real

definition project_year :: "ProjectionInputs \<Rightarrow> int \<Rightarrow> YearRow" where
  "project_year inp yr =
     (let ebitda = ebitda_year1 inp * (1 + growth_rate inp) ^ nat (yr - 1);
          debt =
            (if 1 \<le> yr \<and> yr \<le> int (length (amort_schedule inp)) then
               let sched = amort_schedule inp ! nat (yr - 1)
               in (interest sched, principal sched, remaining sched, payment sched)
             else
               (0, 0,
                if amort_schedule inp \<noteq> [] then remaining (last (amort_schedule inp)) else 0,
                0))
      in case debt of (interest_v, principal_v, remaining_debt, debt_service) \<Rightarrow>
        let depreciation = annual_depreciation inp;
            ebit = ebitda - depreciation;
            taxable = max 0 (ebit - interest_v);
            tax = taxable * tax_rate inp;
            net_income = ebit - interest_v - tax;
            cfads = ebitda - tax;
            fcfe = net_income + depreciation - principal_v;
            exit_value = ebitda * exit_multiple inp;
            exit_costs = exit_value * exit_cost_rate inp;
            net_sale = exit_value - exit_costs - remaining_debt;
            fcfe_final = (if yr = horizon_years inp then fcfe + net_sale else fcfe);
            dscr = (if debt_service > 0 then Some (cfads / debt_service) else None)
        in \<lparr>year_t = yr, ebitda_t = ebitda, cfads_t = cfads, debt_service_t = debt_service,
            dscr_t = dscr, interest_t = interest_v, principal_t = principal_v,
            remaining_debt_t = remaining_debt, fcfe_t = fcfe_final\<rparr>)"

definition project_years :: "ProjectionInputs \<Rightarrow> YearRow list" where
  "project_years inp = map (project_year inp) [1..horizon_years inp]"

text \<open>The list \<^verbatim>\<open>cashflows\<close> handed to \<open>compute_irr\<close>: the equity outlay, then each year's FCFE.\<close>

definition projection_cashflows :: "real \<Rightarrow> ProjectionInputs \<Rightarrow> real list" where
  "projection_cashflows equity_amount inp = (- equity_amount) # map fcfe_t (project_years inp)"

section \<open>Properties\<close>

subsection \<open>Blended nightly rate\<close>

lemma equivalent_nightly_rate_closed:
  "equivalent_nightly_rate p =
     (if share_nightly p + share_weekly p + share_monthly p \<le> 0 then 0
      else (share_nightly p * price_per_night p
            + share_weekly p * (price_per_week p / 7)
            + share_monthly p * (price_per_month p / 30))
           / (share_nightly p + share_weekly p + share_monthly p))"
  by (simp add: equivalent_nightly_rate_def Let_def add_divide_distrib)

text \<open>
  C1. \<open>equivalent_nightly_rate\<close> is 0 when the three shares sum to at most 0; otherwise it
  is the share-weighted sum of the nightly price, the weekly price over 7 and the monthly
  price over 30, divided by the share total. A tenor whose price is zero contributes 0 and its
  share still counts in the total that normalises the other two (second and third conjunct).
\<close>

theorem equivalent_nightly_rate_weighted_sum:
  "equivalent_nightly_rate p =
     (if share_nightly p + share_weekly p + share_monthly p \<le> 0 then 0
      else (share_nightly p * price_per_night p
            + share_weekly p * (price_per_week p / 7)
            + share_monthly p * (price_per_month p / 30))
           / (share_nightly p + share_weekly p + share_monthly p))
   \<and> (0 < share_nightly p + share_weekly p + share_monthly p \<and> price_per_week p = 0 \<longrightarrow>
        equivalent_nightly_rate p =
          (share_nightly p * price_per_night p + share_monthly p * (price_per_month p / 30))
          / (share_nightly p + share_weekly p + share_monthly p))
   \<and> (0 < share_nightly p + share_weekly p + share_monthly p \<and> price_per_month p = 0 \<longrightarrow>
        equivalent_nightly_rate p =
          (share_nightly p * price_per_night p + share_weekly p * (price_per_week p / 7))
          / (share_nightly p + share_weekly p + share_monthly p))"
  by (simp add: equivalent_nightly_rate_def Let_def add_divide_distrib)

theorem equivalent_nightly_rate_weighted_sum_witness:
  "equivalent_nightly_rate
     \<lparr>price_per_night = 150, price_per_week = 950, price_per_month = 0,
      share_nightly = 6 / 10, share_weekly = 3 / 10, share_monthly = 1 / 10\<rparr> = 915 / 7
   \<and> equivalent_nightly_rate
     \<lparr>price_per_night = 150, price_per_week = 950, price_per_month = 3000,
      share_nightly = 0, share_weekly = 0, share_monthly = 0\<rparr> = 0"
  using equivalent_nightly_rate_weighted_sum
          [of "\<lparr>price_per_night = 150, price_per_week = 950, price_per_month = 0,
                share_nightly = 6 / 10, share_weekly = 3 / 10, share_monthly = 1 / 10\<rparr>"]
        equivalent_nightly_rate_weighted_sum
          [of "\<lparr>price_per_night = 150, price_per_week = 950, price_per_month = 3000,
                share_nightly = 0, share_weekly = 0, share_monthly = 0\<rparr>"]
  by simp

text \<open>
  C6. When the shares sum to a positive value, multiplying all three shares by the same
  positive constant leaves \<open>equivalent_nightly_rate\<close> unchanged.
\<close>

theorem equivalent_nightly_rate_scale_invariant:
  assumes "0 < share_nightly p + share_weekly p + share_monthly p" and "0 < c"
  shows "equivalent_nightly_rate (scale_shares c p) = equivalent_nightly_rate p"
proof -
  let ?t = "share_nightly p + share_weekly p + share_monthly p"
  let ?q = "scale_shares c p"
  have total: "share_nightly ?q + share_weekly ?q + share_monthly ?q = c * ?t"
    by (simp add: scale_shares_def distrib_left)
  have pos: "0 < c * ?t"
    using assms by simp
  have quot: "c * x / (c * ?t) = x / ?t" for x
    using assms by simp
  have "equivalent_nightly_rate ?q =
          (share_nightly ?q * price_per_night ?q
           + share_weekly ?q * (price_per_week ?q / 7)
           + share_monthly ?q * (price_per_month ?q / 30)) / (c * ?t)"
    using pos by (simp add: equivalent_nightly_rate_closed total)
  also have "\<dots> = c * (share_nightly p * price_per_night p
           + share_weekly p * (price_per_week p / 7)
           + share_monthly p * (price_per_month p / 30)) / (c * ?t)"
    by (simp add: scale_shares_def distrib_left)
  also have "\<dots> = (share_nightly p * price_per_night p
           + share_weekly p * (price_per_week p / 7)
           + share_monthly p * (price_per_month p / 30)) / ?t"
    by (rule quot)
  also have "\<dots> = equivalent_nightly_rate p"
    using assms by (simp add: equivalent_nightly_rate_closed)
  finally show ?thesis .
qed

theorem equivalent_nightly_rate_scale_invariant_witness:
  "equivalent_nightly_rate
     (scale_shares 4 \<lparr>price_per_night = 150, price_per_week = 950, price_per_month = 0,
        share_nightly = 6 / 10, share_weekly = 3 / 10, share_monthly = 1 / 10\<rparr>)
   = equivalent_nightly_rate
       \<lparr>price_per_night = 150, price_per_week = 950, price_per_month = 0,
        share_nightly = 6 / 10, share_weekly = 3 / 10, share_monthly = 1 / 10\<rparr>"
  using equivalent_nightly_rate_scale_invariant
          [of "\<lparr>price_per_night = 150, price_per_week = 950, price_per_month = 0,
                share_nightly = 6 / 10, share_weekly = 3 / 10, share_monthly = 1 / 10\<rparr>" 4]
  by simp

subsection \<open>Amortization schedule\<close>

lemma length_amortization_rows: "length (amortization_rows a r b ys) = length ys"
  by (induction ys arbitrary: b) (simp_all add: Let_def)

lemma year_amortization_rows: "map year (amortization_rows a r b ys) = ys"
  by (induction ys arbitrary: b) (simp_all add: Let_def)

lemma annuity_denominator_pos:
  fixes r :: real and n :: int
  assumes "0 < r" and "0 < n"
  shows "0 < 1 - (1 + r) powi (- n)" and "1 - (1 + r) powi (- n) \<le> 1"
proof -
  have "1 < (1 + r) powi n"
    by (rule one_less_power_int) (use assms in simp_all)
  then have "inverse ((1 + r) powi n) < 1"
    by (simp add: inverse_less_1_iff)
  then show "0 < 1 - (1 + r) powi (- n)"
    by (simp add: power_int_minus)
  have "0 < (1 + r) powi (- n)"
    using assms by simp
  then show "1 - (1 + r) powi (- n) \<le> 1"
    by simp
qed

lemma build_amortization_schedule_rows:
  assumes "0 < d" and "0 \<le> r" and "0 < y"
  shows "build_amortization_schedule d r y =
           Inr (amortization_rows
                  (if r = 0 then d / real_of_int y else d * (r / (1 - (1 + r) powi (- y))))
                  r d [1..y])"
proof (cases "r = 0")
  case True
  then show ?thesis
    using assms by (simp add: build_amortization_schedule_def)
next
  case False
  then have "0 < r" using assms by simp
  from annuity_denominator_pos(1)[OF this \<open>0 < y\<close>] False assms
  show ?thesis
    by (simp add: build_amortization_schedule_def Let_def)
qed

text \<open>
  In exact arithmetic and for an integer \<open>years\<close>, \<open>build_amortization_schedule\<close> raises
  nothing: it returns the empty schedule exactly when \<open>debt_amount \<le> 0\<close>, \<open>annual_rate < 0\<close> or
  \<open>years \<le> 0\<close>, and for every other input a schedule of exactly \<open>years\<close> rows whose \<open>year\<close>
  fields are 1, 2, ..., \<open>years\<close>.
\<close>

lemma build_amortization_schedule_exact_shape:
  "\<exists>rows. build_amortization_schedule d r y = Inr rows
      \<and> (rows = [] \<longleftrightarrow> d \<le> 0 \<or> r < 0 \<or> y \<le> 0)
      \<and> (\<not> (d \<le> 0 \<or> r < 0 \<or> y \<le> 0) \<longrightarrow>
            int (length rows) = y \<and> map year rows = [1..y])"
proof (cases "d \<le> 0 \<or> r < 0 \<or> y \<le> 0")
  case True
  then show ?thesis
    by (auto simp add: build_amortization_schedule_def)
next
  case False
  then have h: "0 < d" "0 \<le> r" "0 < y" by simp_all
  have "amortization_rows a r d [1..y] \<noteq> []" for a
    using h(3) length_amortization_rows[of a r d "[1..y]"] by auto
  with False show ?thesis
    using h by (simp add: build_amortization_schedule_rows length_amortization_rows
        year_amortization_rows)
qed


lemma amortization_rows_fl_exact: "amortization_rows_fl (\<lambda>x. x) a r b ys = amortization_rows a r b ys"
  by (induction ys arbitrary: b) (simp_all add: Let_def)

lemma build_amortization_schedule_fl_exact:
  "build_amortization_schedule_fl (\<lambda>x. x) d r (real_of_int y) = build_amortization_schedule d r y"
  by (simp add: build_amortization_schedule_fl_def build_amortization_schedule_def py_int_def
      Let_def amortization_rows_fl_exact)

text \<open>
  C7. The function as it runs does not return a schedule of \<open>years\<close> rows for every input
  outside the three guard conditions: when the rate is positive but so small that the sum
  \<open>1 + annual_rate\<close> rounds to 1 (any rate below \<open>2 ^ - 53\<close>, such as \<open>1e-17\<close>), the power is 1,
  the divisor \<open>1 - (1 + r) ** -n\<close> is 0 and the division raises \<^verbatim>\<open>ZeroDivisionError\<close>. The
  guard \<^verbatim>\<open>r == 0\<close> protects the zero rate only.
\<close>

theorem build_amortization_schedule_tiny_rate_raises:
  assumes "0 < debt_amount" and "0 < annual_rate" and "0 < years"
    and "fl (1 + annual_rate) = 1" and "fl 1 = 1" and "fl 0 = 0"
  shows "build_amortization_schedule_fl fl debt_amount annual_rate years = Inl ZeroDivisionError"
  using assms by (simp add: build_amortization_schedule_fl_def Let_def)

lemma nearest_multiple_of_ulp_tiny: "nearest_multiple_of_ulp (1 + 1 / 10 ^ 17) = 1"
proof -
  have "round ((1 + 1 / 10 ^ 17) * 2 ^ 52 :: real) = 2 ^ 52"
    by (rule round_unique) simp_all
  then show ?thesis
    by (simp add: nearest_multiple_of_ulp_def)
qed

theorem build_amortization_schedule_tiny_rate_raises_witness:
  "(0 :: real) < 1000 \<and> (0 :: real) < 1 / 10 ^ 17 \<and> (0 :: real) < 3
   \<and> nearest_multiple_of_ulp (1 + 1 / 10 ^ 17) = 1
   \<and> nearest_multiple_of_ulp 1 = 1 \<and> nearest_multiple_of_ulp 0 = 0
   \<and> build_amortization_schedule_fl nearest_multiple_of_ulp 1000 (1 / 10 ^ 17) 3
       = Inl ZeroDivisionError"
proof -
  have grid: "nearest_multiple_of_ulp 1 = 1" "nearest_multiple_of_ulp 0 = 0"
    by (simp_all add: nearest_multiple_of_ulp_def)
  from build_amortization_schedule_tiny_rate_raises
         [of 1000 "1 / 10 ^ 17" 3 nearest_multiple_of_ulp, OF _ _ _ nearest_multiple_of_ulp_tiny grid]
  show ?thesis
    using nearest_multiple_of_ulp_tiny grid by simp
qed

lemma annuity_repays:
  fixes a r b :: real
  assumes "0 < r" and "0 \<le> a"
    and "a * ((1 + r) ^ length ys - 1) = b * r * (1 + r) ^ length ys"
  shows "sum_list (map principal (amortization_rows a r b ys)) = b
         \<and> (ys \<noteq> [] \<longrightarrow> remaining (last (amortization_rows a r b ys)) = 0)"
  using assms
proof (induction ys arbitrary: b)
  case Nil
  then show ?case by simp
next
  case (Cons y ys)
  let ?k = "length ys"
  let ?b' = "b - (a - b * r)"
  have inv: "a * ((1 + r) ^ ?k - 1) = ?b' * r * (1 + r) ^ ?k"
    using Cons.prems(3) by (simp add: algebra_simps)
  have "1 \<le> (1 + r) ^ ?k"
    using \<open>0 < r\<close> by (simp add: one_le_power)
  then have "0 \<le> a * ((1 + r) ^ ?k - 1)"
    using \<open>0 \<le> a\<close> by simp
  then have "0 \<le> ?b' * (r * (1 + r) ^ ?k)"
    using inv by (simp add: mult.assoc)
  moreover have "0 < r * (1 + r) ^ ?k"
    using \<open>0 < r\<close> by simp
  ultimately have nonneg: "0 \<le> ?b'"
    by (simp add: zero_le_mult_iff)
  then have clip: "max 0 ?b' = ?b'"
    by simp
  have last0: "ys = [] \<Longrightarrow> ?b' = 0"
    using inv \<open>0 < r\<close> by simp
  from Cons.IH[OF \<open>0 < r\<close> \<open>0 \<le> a\<close> inv]
  show ?case
    using last0 by (auto simp add: Let_def clip simp del: max.absorb2 max.absorb4)
qed

lemma straight_line_repays:
  fixes a b :: real
  assumes "0 \<le> a" and "b = a * real (length ys)"
  shows "sum_list (map principal (amortization_rows a 0 b ys)) = b
         \<and> (ys \<noteq> [] \<longrightarrow> remaining (last (amortization_rows a 0 b ys)) = 0)"
  using assms
proof (induction ys arbitrary: b)
  case Nil
  then show ?case by simp
next
  case (Cons y ys)
  let ?b' = "a * real (length ys)"
  have step: "b - a = ?b'"
    using Cons.prems(2) by (simp add: algebra_simps)
  have "0 \<le> ?b'"
    using \<open>0 \<le> a\<close> by simp
  then have clip: "max 0 ?b' = ?b'"
    by simp
  from Cons.IH[OF \<open>0 \<le> a\<close> refl]
  show ?case
    using Cons.prems(2) by (auto simp add: Let_def step clip algebra_simps)
qed

lemma remaining_bounds:
  fixes a r b :: real
  assumes "0 \<le> r" and "0 \<le> b" and "b * r \<le> a"
  shows "sorted_wrt (\<lambda>x y. y \<le> x) (map remaining (amortization_rows a r b ys))
         \<and> (\<forall>row \<in> set (amortization_rows a r b ys). 0 \<le> remaining row \<and> remaining row \<le> b)"
  using assms
proof (induction ys arbitrary: b)
  case Nil
  then show ?case by simp
next
  case (Cons y ys)
  let ?b' = "max 0 (b - (a - b * r))"
  have lo: "0 \<le> ?b'" by simp
  have hi: "?b' \<le> b"
    using Cons.prems by simp
  have "?b' * r \<le> b * r"
    using hi \<open>0 \<le> r\<close> by (rule mult_right_mono)
  then have pay: "?b' * r \<le> a"
    using Cons.prems(3) by simp
  from Cons.IH[OF \<open>0 \<le> r\<close> lo pay] hi
  show ?case
    by (fastforce simp add: Let_def)
qed

lemma annual_payment_covers_interest:
  fixes d r :: real and y :: int
  assumes "0 < d" and "0 \<le> r" and "0 < y"
  shows "d * r \<le> (if r = 0 then d / real_of_int y else d * (r / (1 - (1 + r) powi (- y))))"
proof (cases "r = 0")
  case True
  then show ?thesis using assms by simp
next
  case False
  then have "0 < r" using assms by simp
  note den = annuity_denominator_pos[OF this \<open>0 < y\<close>]
  have "r * (1 - (1 + r) powi (- y)) \<le> r * 1"
    using den(2) \<open>0 < r\<close> by (intro mult_left_mono) simp_all
  then have "r \<le> r / (1 - (1 + r) powi (- y))"
    using den(1) by (simp add: pos_le_divide_eq)
  then have "d * r \<le> d * (r / (1 - (1 + r) powi (- y)))"
    using \<open>0 < d\<close> by (intro mult_left_mono) simp_all
  with False show ?thesis by simp
qed

lemma annual_payment_invariant:
  fixes d r :: real and n :: nat
  assumes "0 < d" and "0 < r" and "0 < n"
  shows "d * (r / (1 - (1 + r) powi (- int n))) * ((1 + r) ^ n - 1) = d * r * (1 + r) ^ n"
    and "0 \<le> d * (r / (1 - (1 + r) powi (- int n)))"
proof -
  define q where "q = (1 + r) ^ n"
  have q: "1 < q"
    unfolding q_def using assms by (simp add: one_less_power)
  have "(1 + r) powi (- int n) = 1 / q"
    by (simp add: power_int_minus_divide q_def)
  moreover have "1 - 1 / q = (q - 1) / q"
    using q by (simp add: diff_divide_distrib)
  ultimately have "1 - (1 + r) powi (- int n) = (q - 1) / q"
    by simp
  then have pay: "d * (r / (1 - (1 + r) powi (- int n))) = d * r * q / (q - 1)"
    by simp
  have "d * (r / (1 - (1 + r) powi (- int n))) * (q - 1) = d * r * q"
    unfolding pay using q by simp
  then show "d * (r / (1 - (1 + r) powi (- int n))) * ((1 + r) ^ n - 1) = d * r * (1 + r) ^ n"
    by (simp add: q_def)
  show "0 \<le> d * (r / (1 - (1 + r) powi (- int n)))"
    unfolding pay using q assms by simp
qed

text \<open>
  C2. For \<open>debt_amount > 0\<close>, \<open>annual_rate \<ge> 0\<close> and \<open>years > 0\<close> the schedule repays
  the loan in exact arithmetic: the \<open>principal\<close> fields of its rows sum to \<open>debt_amount\<close>
  and the \<open>remaining\<close> field of the last row is 0.
\<close>

theorem build_amortization_schedule_repays:
  assumes "0 < d" and "0 \<le> r" and "0 < y"
  shows "\<exists>rows. build_amortization_schedule d r y = Inr rows
           \<and> sum_list (map principal rows) = d
           \<and> remaining (last rows) = 0"
proof -
  define n where "n = nat y"
  have y: "y = int n" and n: "0 < n" and len: "length [1..y] = n"
    using \<open>0 < y\<close> by (simp_all add: n_def)
  have ne: "[1..y] \<noteq> []"
    using \<open>0 < y\<close> by (simp add: upto_Nil)
  show ?thesis
  proof (cases "r = 0")
    case True
    have "d = d / real_of_int y * real (length [1..y])"
      using n by (simp add: len y)
    with straight_line_repays[of "d / real_of_int y" d "[1..y]"] assms ne True
    show ?thesis
      by (simp add: build_amortization_schedule_rows)
  next
    case False
    then have r: "0 < r" using assms by simp
    from annual_payment_invariant[OF \<open>0 < d\<close> r n]
      annuity_repays[of r "d * (r / (1 - (1 + r) powi (- y)))" "[1..y]" d] r ne False assms
    show ?thesis
      by (simp add: build_amortization_schedule_rows len y)
  qed
qed

theorem build_amortization_schedule_repays_witness:
  "(0::real) < 1000 \<and> (0::real) \<le> 1 / 10 \<and> (0::int) < 3
   \<and> (\<exists>rows. build_amortization_schedule 1000 (1 / 10) 3 = Inr rows
           \<and> sum_list (map principal rows) = 1000
           \<and> remaining (last rows) = 0)"
  using build_amortization_schedule_repays [of 1000 "1 / 10" 3] by simp

text \<open>
  C5. For \<open>debt_amount > 0\<close>, \<open>annual_rate \<ge> 0\<close> and \<open>years > 0\<close> the \<open>remaining\<close>
  fields of the rows, read in order, never increase, and each of them is at least 0.
\<close>

theorem build_amortization_schedule_remaining_monotone:
  assumes "0 < d" and "0 \<le> r" and "0 < y"
  shows "\<exists>rows. build_amortization_schedule d r y = Inr rows
           \<and> sorted_wrt (\<lambda>x y. y \<le> x) (map remaining rows)
           \<and> (\<forall>row \<in> set rows. 0 \<le> remaining row)"
proof -
  let ?a = "if r = 0 then d / real_of_int y else d * (r / (1 - (1 + r) powi (- y)))"
  have "d * r \<le> ?a"
    using assms by (rule annual_payment_covers_interest)
  from remaining_bounds[OF \<open>0 \<le> r\<close> _ this, of "[1..y]"] assms
  show ?thesis
    by (simp add: build_amortization_schedule_rows)
qed



theorem build_amortization_schedule_remaining_monotone_witness:
  "(0::real) < 1000 \<and> (0::real) \<le> 1 / 10 \<and> (0::int) < 3
   \<and> (\<exists>rows. build_amortization_schedule 1000 (1 / 10) 3 = Inr rows
           \<and> map remaining rows = [231000 / 331, 121000 / 331, 0]
           \<and> sorted_wrt (\<lambda>x y. y \<le> x) (map remaining rows))"
proof -
  have run: "build_amortization_schedule 1000 (1 / 10) 3 = Inr
     [\<lparr>year = 1, payment = 133100 / 331, interest = 100,
         principal = 100000 / 331, remaining = 231000 / 331\<rparr>,
      \<lparr>year = 2, payment = 133100 / 331, interest = 23100 / 331,
         principal = 110000 / 331, remaining = 121000 / 331\<rparr>,
      \<lparr>year = 3, payment = 133100 / 331, interest = 12100 / 331,
         principal = 121000 / 331, remaining = 0\<rparr>]"
    by code_simp
  from build_amortization_schedule_remaining_monotone [of 1000 "1 / 10" 3]
  show ?thesis
    unfolding run by simp
qed

subsection \<open>Internal rate of return\<close>

lemma npv_sum_value:
  assumes "1 + mid \<noteq> 0"
  shows "npv_sum mid acc tcs = Inr (acc + (\<Sum>(t, cf)\<leftarrow>tcs. cf / (1 + mid) ^ t))"
  using assms by (induction tcs arbitrary: acc) (auto simp add: algebra_simps)

lemma npv_value_eq:
  assumes "1 + mid \<noteq> 0"
  shows "npv mid cfs = Inr (npv_value mid cfs)"
  using assms by (simp add: npv_def npv_value_def npv_sum_value)

lemma midpoint_discount_nonzero:
  fixes low high :: real
  assumes "- 9 / 10 \<le> low" and "low < high"
  shows "1 + (low + high) / 2 \<noteq> 0"
proof -
  have "0 < 1 + (low + high) / 2"
    using assms by argo
  then show ?thesis by simp
qed

lemma compute_irr_loop_Suc:
  assumes "- 9 / 10 \<le> low" and "low < high"
  shows "compute_irr_loop cfs tol (Suc k) low high m =
           (if \<bar>npv_value ((low + high) / 2) cfs\<bar> < tol then Inr ((low + high) / 2)
            else if npv_value ((low + high) / 2) cfs > 0
              then compute_irr_loop cfs tol k ((low + high) / 2) high (Some ((low + high) / 2))
              else compute_irr_loop cfs tol k low ((low + high) / 2) (Some ((low + high) / 2)))"
  using npv_value_eq[OF midpoint_discount_nonzero[OF assms], of cfs]
  by (simp add: Let_def)

declare compute_irr_loop.simps(2) [simp del]

lemma compute_irr_loop_done:
  assumes "- 9 / 10 \<le> low" and "low < high" and "high \<le> 1"
  shows "\<exists>x. compute_irr_loop cfs tol (Suc k) low high m = Inr x
           \<and> low < x \<and> x < high
           \<and> (\<bar>npv_value x cfs\<bar> < tol
               \<or> (case (narrow cfs ^^ k) (low, high) of (l, h) \<Rightarrow> x = (l + h) / 2))"
  using assms
proof (induction k arbitrary: low high m)
  case 0
  let ?mid = "(low + high) / 2"
  have res: "compute_irr_loop cfs tol (Suc 0) low high m = Inr ?mid"
    using 0 by (simp add: compute_irr_loop_Suc)
  show ?case
  proof (intro exI conjI)
    show "compute_irr_loop cfs tol (Suc 0) low high m = Inr ?mid"
      by (rule res)
    show "low < ?mid" "?mid < high"
      using 0 by simp_all
    show "\<bar>npv_value ?mid cfs\<bar> < tol
            \<or> (case (narrow cfs ^^ 0) (low, high) of (l, h) \<Rightarrow> ?mid = (l + h) / 2)"
      by simp
  qed
next
  case (Suc k)
  let ?mid = "(low + high) / 2"
  have mid: "low < ?mid" "?mid < high" using Suc.prems by simp_all
  note step = compute_irr_loop_Suc[OF Suc.prems(1,2), of cfs tol "Suc k" m]
  show ?case
  proof (cases "\<bar>npv_value ?mid cfs\<bar> < tol")
    case True
    show ?thesis
    proof (intro exI conjI)
      show "compute_irr_loop cfs tol (Suc (Suc k)) low high m = Inr ?mid"
        using step True by simp
      show "low < ?mid" "?mid < high"
        by (rule mid)+
      show "\<bar>npv_value ?mid cfs\<bar> < tol
            \<or> (case (narrow cfs ^^ Suc k) (low, high) of (l, h) \<Rightarrow> ?mid = (l + h) / 2)"
        using True by simp
    qed
  next
    case far: False
    show ?thesis
    proof (cases "npv_value ?mid cfs > 0")
      case True
      then have nar: "narrow cfs (low, high) = (?mid, high)"
        by (simp add: narrow_def Let_def)
      have "- 9 / 10 \<le> ?mid" using Suc.prems by simp
      from Suc.IH[OF this mid(2) Suc.prems(3), of "Some ?mid"]
      obtain x where x: "compute_irr_loop cfs tol (Suc k) ?mid high (Some ?mid) = Inr x"
        "?mid < x" "x < high"
        "\<bar>npv_value x cfs\<bar> < tol
           \<or> (case (narrow cfs ^^ k) (?mid, high) of (l, h) \<Rightarrow> x = (l + h) / 2)"
        by (elim exE conjE) (rule that)
      have nars: "(narrow cfs ^^ Suc k) (low, high) = (narrow cfs ^^ k) (?mid, high)"
        by (simp add: funpow_swap1 nar)
      show ?thesis
      proof (intro exI conjI)
        show "compute_irr_loop cfs tol (Suc (Suc k)) low high m = Inr x"
          using step far True x(1) by simp
        show "low < x" using mid(1) x(2) by simp
        show "x < high" by (rule x(3))
        show "\<bar>npv_value x cfs\<bar> < tol
            \<or> (case (narrow cfs ^^ Suc k) (low, high) of (l, h) \<Rightarrow> x = (l + h) / 2)"
          using x(4) unfolding nars .
      qed
    next
      case False
      then have nar: "narrow cfs (low, high) = (low, ?mid)"
        by (simp add: narrow_def Let_def)
      have "?mid \<le> 1" using Suc.prems by simp
      from Suc.IH[OF Suc.prems(1) mid(1) this, of "Some ?mid"]
      obtain x where x: "compute_irr_loop cfs tol (Suc k) low ?mid (Some ?mid) = Inr x"
        "low < x" "x < ?mid"
        "\<bar>npv_value x cfs\<bar> < tol
           \<or> (case (narrow cfs ^^ k) (low, ?mid) of (l, h) \<Rightarrow> x = (l + h) / 2)"
        by (elim exE conjE) (rule that)
      have nars: "(narrow cfs ^^ Suc k) (low, high) = (narrow cfs ^^ k) (low, ?mid)"
        by (simp add: funpow_swap1 nar)
      show ?thesis
      proof (intro exI conjI)
        show "compute_irr_loop cfs tol (Suc (Suc k)) low high m = Inr x"
          using step far False x(1) by simp
        show "low < x" by (rule x(2))
        show "x < high" using mid(2) x(3) by simp
        show "\<bar>npv_value x cfs\<bar> < tol
            \<or> (case (narrow cfs ^^ Suc k) (low, high) of (l, h) \<Rightarrow> x = (l + h) / 2)"
          using x(4) unfolding nars .
      qed
    qed
  qed
qed


lemma compute_irr_same_sign:
  "compute_irr cfs tol max_iter = Inr None"
  if "(\<forall>cf \<in> set cfs. 0 \<le> cf) \<or> (\<forall>cf \<in> set cfs. cf \<le> 0)"
  using that by (simp add: compute_irr_def list_all_iff)

lemma compute_irr_sign_change:
  assumes "\<not> ((\<forall>cf \<in> set cfs. 0 \<le> cf) \<or> (\<forall>cf \<in> set cfs. cf \<le> 0))"
  shows "compute_irr cfs tol max_iter =
           (case compute_irr_loop cfs tol (nat max_iter) (- 9 / 10) 1 None of
              Inl e \<Rightarrow> Inl e | Inr m \<Rightarrow> Inr (Some m))"
  using assms unfolding compute_irr_def list_all_iff by (simp only: if_False)

lemma compute_irr_returns:
  assumes "\<not> ((\<forall>cf \<in> set cfs. 0 \<le> cf) \<or> (\<forall>cf \<in> set cfs. cf \<le> 0))" and "0 < max_iter"
  shows "\<exists>x. compute_irr cfs tol max_iter = Inr (Some x)
           \<and> - 9 / 10 < x \<and> x < 1
           \<and> (\<bar>npv_value x cfs\<bar> < tol \<or> x = midpoint_after cfs (nat max_iter - 1))"
proof -
  obtain k where k: "nat max_iter = Suc k"
    using \<open>0 < max_iter\<close> by (cases "nat max_iter") simp_all
  have "\<exists>x. compute_irr_loop cfs tol (Suc k) (- 9 / 10) 1 None = Inr x
           \<and> - 9 / 10 < x \<and> x < 1
           \<and> (\<bar>npv_value x cfs\<bar> < tol
               \<or> (case (narrow cfs ^^ k) (- 9 / 10, 1) of (l, h) \<Rightarrow> x = (l + h) / 2))"
    by (rule compute_irr_loop_done) simp_all
  then obtain x where x: "compute_irr_loop cfs tol (Suc k) (- 9 / 10) 1 None = Inr x"
    "- 9 / 10 < x" "x < 1"
    "\<bar>npv_value x cfs\<bar> < tol
       \<or> (case (narrow cfs ^^ k) (- 9 / 10, 1) of (l, h) \<Rightarrow> x = (l + h) / 2)"
    by (elim exE conjE) (rule that)
  have "\<bar>npv_value x cfs\<bar> < tol \<or> x = midpoint_after cfs (nat max_iter - 1)"
    using x(4) by (auto simp add: midpoint_after_def k split: prod.splits)
  moreover have "compute_irr cfs tol max_iter = Inr (Some x)"
    using x(1) by (simp add: compute_irr_sign_change[OF assms(1)] k)
  ultimately show ?thesis
    using x(2,3) by blast
qed

text \<open>
  C4. With at least one iteration allowed (the default is 1000), \<open>compute_irr\<close> returns
  \<open>None\<close> if and only if all cash flows are \<open>\<ge> 0\<close> or all are \<open>\<le> 0\<close>; on a series with a
  sign change it raises nothing and returns a number, which is a midpoint whose NPV is
  within the tolerance or else the midpoint computed in the last iteration.
\<close>

theorem compute_irr_undefined_iff:
  assumes "0 < max_iter"
  shows "(compute_irr cfs tol max_iter = Inr None
            \<longleftrightarrow> (\<forall>cf \<in> set cfs. 0 \<le> cf) \<or> (\<forall>cf \<in> set cfs. cf \<le> 0))
         \<and> (\<not> ((\<forall>cf \<in> set cfs. 0 \<le> cf) \<or> (\<forall>cf \<in> set cfs. cf \<le> 0)) \<longrightarrow>
              (\<exists>x. compute_irr cfs tol max_iter = Inr (Some x)
                 \<and> (\<bar>npv_value x cfs\<bar> < tol \<or> x = midpoint_after cfs (nat max_iter - 1))))"
proof (cases "(\<forall>cf \<in> set cfs. 0 \<le> cf) \<or> (\<forall>cf \<in> set cfs. cf \<le> 0)")
  case True
  then show ?thesis
    using compute_irr_same_sign[OF True] by simp
next
  case False
  from compute_irr_returns[OF False assms, of tol]
  obtain x where "compute_irr cfs tol max_iter = Inr (Some x)"
    "\<bar>npv_value x cfs\<bar> < tol \<or> x = midpoint_after cfs (nat max_iter - 1)"
    by (elim exE conjE) (rule that)
  with False show ?thesis
    by auto
qed

theorem compute_irr_undefined_iff_witness:
  "0 < default_max_iter
   \<and> compute_irr [100, 60, 60] default_tol default_max_iter = Inr None
   \<and> compute_irr [- 100, - 60, 0] default_tol default_max_iter = Inr None
   \<and> compute_irr [] default_tol default_max_iter = Inr None
   \<and> (\<exists>x. compute_irr [- 100, 60, 60] default_tol default_max_iter = Inr (Some x)
         \<and> (\<bar>npv_value x [- 100, 60, 60]\<bar> < default_tol
              \<or> x = midpoint_after [- 100, 60, 60] (nat default_max_iter - 1)))"
  using compute_irr_undefined_iff [of default_max_iter "[100, 60, 60]" default_tol]
    compute_irr_undefined_iff [of default_max_iter "[- 100, - 60, 0]" default_tol]
    compute_irr_undefined_iff [of default_max_iter "[]" default_tol]
    compute_irr_undefined_iff [of default_max_iter "[- 100, 60, 60]" default_tol]
  by (simp add: default_max_iter_def)

lemma discounted_sum_continuous:
  fixes tcs :: "(nat \<times> real) list"
  assumes "\<forall>m \<in> S. 1 + m \<noteq> (0::real)"
  shows "continuous_on S (\<lambda>m. \<Sum>(t, cf)\<leftarrow>tcs. cf / (1 + m) ^ t)"
proof (induction tcs)
  case Nil
  show ?case by simp
next
  case (Cons tc tcs)
  obtain t cf where tc: "tc = (t, cf)" by (cases tc)
  have "continuous_on S (\<lambda>m. cf / (1 + m) ^ t)"
    using assms by (intro continuous_intros) simp_all
  then show ?case
    using Cons.IH by (simp add: tc continuous_on_add)
qed

lemma npv_value_continuous: "continuous_on {- 9 / 10..1} (\<lambda>m. npv_value m cfs)"
  unfolding npv_value_def
proof (rule discounted_sum_continuous, rule ballI)
  fix m :: real
  assume "m \<in> {- 9 / 10..1}"
  then have "0 < 1 + m" by simp
  then show "1 + m \<noteq> 0" by simp
qed

lemma npv_value_constant_sign:
  assumes "\<forall>m \<in> {- 9 / 10..1}. npv_value m cfs \<noteq> 0"
  shows "(\<forall>m \<in> {- 9 / 10..1}. 0 < npv_value m cfs) \<or> (\<forall>m \<in> {- 9 / 10..1}. npv_value m cfs < 0)"
proof (rule ccontr)
  assume "\<not> ?thesis"
  then obtain u v where u: "u \<in> {- 9 / 10..1}" "\<not> 0 < npv_value u cfs"
    and v: "v \<in> {- 9 / 10..1}" "\<not> npv_value v cfs < 0"
    by blast
  have neg: "npv_value u cfs \<le> 0" and pos: "0 \<le> npv_value v cfs"
    using u v by simp_all
  have sub: "continuous_on {a..b} (\<lambda>m. npv_value m cfs)" if "- 9 / 10 \<le> a" "b \<le> 1" for a b
    by (rule continuous_on_subset[OF npv_value_continuous]) (use that in auto)
  have "\<exists>x. - 9 / 10 \<le> x \<and> x \<le> 1 \<and> npv_value x cfs = 0"
  proof (cases "u \<le> v")
    case True
    have "continuous_on {u..v} (\<lambda>m. npv_value m cfs)"
      using u(1) v(1) by (intro sub) simp_all
    from IVT'[of "\<lambda>m. npv_value m cfs" u 0 v, OF neg pos True this]
    obtain x where "u \<le> x" "x \<le> v" "npv_value x cfs = 0"
      by (elim exE conjE) (rule that)
    moreover have "- 9 / 10 \<le> u" "v \<le> 1"
      using u(1) v(1) by simp_all
    ultimately have "- 9 / 10 \<le> x \<and> x \<le> 1 \<and> npv_value x cfs = 0"
      by simp
    then show ?thesis ..
  next
    case False
    then have le: "v \<le> u" by simp
    have "continuous_on {v..u} (\<lambda>m. npv_value m cfs)"
      using u(1) v(1) by (intro sub) simp_all
    from IVT2'[of "\<lambda>m. npv_value m cfs" u 0 v, OF neg pos le this]
    obtain x where "v \<le> x" "x \<le> u" "npv_value x cfs = 0"
      by (elim exE conjE) (rule that)
    moreover have "- 9 / 10 \<le> v" "u \<le> 1"
      using u(1) v(1) by simp_all
    ultimately have "- 9 / 10 \<le> x \<and> x \<le> 1 \<and> npv_value x cfs = 0"
      by simp
    then show ?thesis ..
  qed
  then show False
    using assms by auto
qed

lemma halving_width:
  fixes k :: nat
  shows "0 < (19 / 10) / (2 ^ k :: real)" and "(19 / 10) / 2 ^ k \<le> (19 / 10 :: real)"
    and "(19 / 10) / (2 ^ k :: real) / 2 = (19 / 10) / 2 ^ Suc k"
proof -
  show "0 < (19 / 10) / (2 ^ k :: real)" by simp
  have "1 \<le> (2 ^ k :: real)" by simp
  then have "(19 / 10) / 2 ^ k \<le> (19 / 10) / (1 :: real)"
    by (intro divide_left_mono) simp_all
  then show "(19 / 10) / 2 ^ k \<le> (19 / 10 :: real)" by simp
  show "(19 / 10) / (2 ^ k :: real) / 2 = (19 / 10) / 2 ^ Suc k" by simp
qed

lemma narrow_positive:
  assumes "\<forall>m \<in> {- 9 / 10..1}. 0 < npv_value m cfs"
  shows "(narrow cfs ^^ k) (- 9 / 10, 1) = (1 - (19 / 10) / 2 ^ k, 1)"
proof (induction k)
  case 0
  show ?case by simp
next
  case (Suc k)
  define e :: real where "e = (19 / 10) / 2 ^ k"
  have e: "0 < e" "e \<le> 19 / 10" "e / 2 = (19 / 10) / 2 ^ Suc k"
    unfolding e_def by (rule halving_width)+
  have mid: "(1 - e + 1) / 2 = 1 - e / 2"
    by (simp add: field_simps)
  have "1 - e / 2 \<in> {- 9 / 10..1}"
    using e(1,2) by simp
  then have "0 < npv_value (1 - e / 2) cfs"
    using assms by blast
  then have "narrow cfs (1 - e, 1) = (1 - e / 2, 1)"
    unfolding narrow_def Let_def prod.case mid by (simp only: if_True)
  then show ?case
    using Suc.IH e(3) by (simp add: e_def)
qed

lemma narrow_negative:
  assumes "\<forall>m \<in> {- 9 / 10..1}. npv_value m cfs < 0"
  shows "(narrow cfs ^^ k) (- 9 / 10, 1) = (- 9 / 10, - 9 / 10 + (19 / 10) / 2 ^ k)"
proof (induction k)
  case 0
  show ?case by simp
next
  case (Suc k)
  define e :: real where "e = (19 / 10) / 2 ^ k"
  have e: "0 < e" "e \<le> 19 / 10" "e / 2 = (19 / 10) / 2 ^ Suc k"
    unfolding e_def by (rule halving_width)+
  have mid: "(- 9 / 10 + (- 9 / 10 + e)) / 2 = - 9 / 10 + e / 2"
    by (simp add: field_simps)
  have "- 9 / 10 + e / 2 \<in> {- 9 / 10..1}"
    using e(1,2) by simp
  then have "npv_value (- 9 / 10 + e / 2) cfs < 0"
    using assms by blast
  then have "\<not> 0 < npv_value (- 9 / 10 + e / 2) cfs"
    by simp
  then have "narrow cfs (- 9 / 10, - 9 / 10 + e) = (- 9 / 10, - 9 / 10 + e / 2)"
    unfolding narrow_def Let_def prod.case mid by (simp only: if_False)
  then show ?case
    using Suc.IH e(3) by (simp add: e_def)
qed


lemma midpoint_after_positive:
  assumes "\<forall>m \<in> {- 9 / 10..1}. 0 < npv_value m cfs"
  shows "midpoint_after cfs k = 1 - (19 / 10) / 2 ^ Suc k"
proof -
  have "(1 - (19 / 10) / 2 ^ k + 1) / 2 = 1 - (19 / 10) / (2 ^ k :: real) / 2"
    by (simp add: field_simps)
  then show ?thesis
    unfolding midpoint_after_def narrow_positive[OF assms] prod.case halving_width(3) .
qed

lemma midpoint_after_negative:
  assumes "\<forall>m \<in> {- 9 / 10..1}. npv_value m cfs < 0"
  shows "midpoint_after cfs k = - 9 / 10 + (19 / 10) / 2 ^ Suc k"
proof -
  have "(- 9 / 10 + (- 9 / 10 + (19 / 10) / 2 ^ k)) / 2 = - 9 / 10 + (19 / 10) / (2 ^ k :: real) / 2"
    by (simp add: field_simps)
  then show ?thesis
    unfolding midpoint_after_def narrow_negative[OF assms] prod.case halving_width(3) .
qed

lemma compute_irr_number:
  assumes "compute_irr cfs tol max_iter = Inr (Some x)"
  shows "- 9 / 10 < x \<and> x < 1
         \<and> (\<bar>npv_value x cfs\<bar> < tol \<or> x = midpoint_after cfs (nat max_iter - 1))
         \<and> 0 < max_iter"
proof -
  have change: "\<not> ((\<forall>cf \<in> set cfs. 0 \<le> cf) \<or> (\<forall>cf \<in> set cfs. cf \<le> 0))"
    using assms compute_irr_same_sign[of cfs tol max_iter] by auto
  have iter: "0 < max_iter"
  proof (rule ccontr)
    assume "\<not> 0 < max_iter"
    then have "nat max_iter = 0" by simp
    then have "compute_irr cfs tol max_iter = Inl UnboundLocalError"
      by (simp add: compute_irr_sign_change[OF change])
    with assms show False by simp
  qed
  from compute_irr_returns[OF change iter, of tol] assms iter
  show ?thesis by auto
qed

text \<open>
  C9 (as amended). Every number returned by \<open>compute_irr\<close> lies in the closed interval
  from \<open>- 0.9\<close> to \<open>1.0\<close>. When the NPV has no root in that interval (the internal rate of
  return lies outside it), the value returned is not a root of the NPV: it is a midpoint
  whose NPV is within the tolerance, or else the midpoint of the last iteration, which is
  \<open>1 - 1.9 / 2 ^ max_iter\<close> or \<open>- 0.9 + 1.9 / 2 ^ max_iter\<close>, next to a boundary.
\<close>

theorem compute_irr_range:
  assumes "compute_irr cfs tol max_iter = Inr (Some x)"
  shows "x \<in> {- 9 / 10..1}
         \<and> ((\<forall>m \<in> {- 9 / 10..1}. npv_value m cfs \<noteq> 0) \<longrightarrow>
              npv_value x cfs \<noteq> 0
              \<and> (\<bar>npv_value x cfs\<bar> < tol
                  \<or> x = 1 - (19 / 10) / 2 ^ nat max_iter
                  \<or> x = - 9 / 10 + (19 / 10) / 2 ^ nat max_iter))"
proof -
  note num = compute_irr_number[OF assms]
  then have range: "x \<in> {- 9 / 10..1}" by simp
  have suc: "Suc (nat max_iter - 1) = nat max_iter"
    using num by simp
  have "npv_value x cfs \<noteq> 0
        \<and> (\<bar>npv_value x cfs\<bar> < tol
            \<or> x = 1 - (19 / 10) / 2 ^ nat max_iter
            \<or> x = - 9 / 10 + (19 / 10) / 2 ^ nat max_iter)"
    if noroot: "\<forall>m \<in> {- 9 / 10..1}. npv_value m cfs \<noteq> 0"
  proof
    show "npv_value x cfs \<noteq> 0"
      using noroot range by blast
    from npv_value_constant_sign[OF noroot]
    show "\<bar>npv_value x cfs\<bar> < tol
            \<or> x = 1 - (19 / 10) / 2 ^ nat max_iter
            \<or> x = - 9 / 10 + (19 / 10) / 2 ^ nat max_iter"
    proof
      assume "\<forall>m \<in> {- 9 / 10..1}. 0 < npv_value m cfs"
      from midpoint_after_positive[OF this, of "nat max_iter - 1"] num
      show ?thesis unfolding suc by blast
    next
      assume "\<forall>m \<in> {- 9 / 10..1}. npv_value m cfs < 0"
      from midpoint_after_negative[OF this, of "nat max_iter - 1"] num
      show ?thesis unfolding suc by blast
    qed
  qed
  with range show ?thesis by blast
qed

lemma two_cashflows_npv: "npv_value m [a, b] = a + b / (1 + m)"
  by (simp add: npv_value_def)

lemma outlay_tripled_no_root:
  assumes "m \<in> {- 9 / 10..1}"
  shows "npv_value m [- 100, 300] \<noteq> 0"
proof -
  have "0 < 1 + m" "1 + m \<le> 2" using assms by simp_all
  then have "300 / 2 \<le> 300 / (1 + m)"
    by (intro divide_left_mono) simp_all
  then show ?thesis
    by (simp add: two_cashflows_npv)
qed

theorem compute_irr_range_witness:
  "compute_irr [- 100, 300] default_tol 3 = Inr (Some (61 / 80))
   \<and> (61 / 80 :: real) \<in> {- 9 / 10..1}
   \<and> npv_value (61 / 80) [- 100, 300] \<noteq> 0
   \<and> (61 / 80 :: real) = 1 - (19 / 10) / 2 ^ nat 3"
proof -
  have run: "compute_irr [- 100, 300] default_tol 3 = Inr (Some (61 / 80))"
    by code_simp
  have far: "\<not> \<bar>npv_value (61 / 80) [- 100, 300]\<bar> < default_tol"
    by (simp add: two_cashflows_npv default_tol_def)
  have low: "(61 / 80 :: real) \<noteq> - 9 / 10 + (19 / 10) / 2 ^ nat 3"
    by (simp add: numeral_eq_Suc)
  show ?thesis
    using compute_irr_range [OF run] outlay_tripled_no_root run far low by blast
qed

text \<open>
  The second half of C9 as first stated (outside the interval, the value returned is next to
  a boundary) fails for small cash flows: on \<open>[- 1e-9, 3e-9]\<close>, whose only rate of return is
  \<open>2\<close>, the first midpoint \<open>0.05\<close>, the centre of the interval, is already within the default
  tolerance and is returned.
\<close>

theorem compute_irr_first_midpoint_counterexample:
  "compute_irr [- 1 / 10 ^ 9, 3 / 10 ^ 9] default_tol default_max_iter = Inr (Some (1 / 20))
   \<and> npv_value 2 [- 1 / 10 ^ 9, 3 / 10 ^ 9] = 0
   \<and> (2 :: real) \<notin> {- 9 / 10..1}
   \<and> (1 / 20 :: real) = (- 9 / 10 + 1) / 2
   \<and> npv_value (1 / 20) [- 1 / 10 ^ 9, 3 / 10 ^ 9] \<noteq> 0"
proof -
  have "compute_irr [- 1 / 10 ^ 9, 3 / 10 ^ 9] default_tol default_max_iter = Inr (Some (1 / 20))"
    by code_simp
  then show ?thesis
    by (simp add: two_cashflows_npv)
qed

lemma small_cashflows_only_root:
  assumes "1 + m \<noteq> 0"
  shows "npv_value m [- 1 / 10 ^ 9, 3 / 10 ^ 9] = 0 \<longleftrightarrow> m = 2"
  using assms by (simp add: two_cashflows_npv field_simps)

subsection \<open>Revenue breakdown\<close>

lemma room_step_snd:
  "snd (room_step s (k', rt) acc) =
     (case map_of (pricing s) k' of
        None \<Rightarrow> snd acc
      | Some pr \<Rightarrow> AList.update k' (room_entry s k' rt pr) (snd acc))"
  by (cases acc) (simp add: room_step_def room_entry_def Let_def split: option.splits)

lemma fold_room_step_lookup:
  assumes "distinct (map fst rts)"
  shows "map_of (snd (fold (room_step s) rts acc)) k =
     (case map_of rts k of
        None \<Rightarrow> map_of (snd acc) k
      | Some rt \<Rightarrow>
          (case map_of (pricing s) k of
             None \<Rightarrow> map_of (snd acc) k
           | Some pr \<Rightarrow> Some (room_entry s k rt pr)))"
  using assms
proof (induction rts arbitrary: acc)
  case Nil
  show ?case by simp
next
  case (Cons item rts)
  obtain k' rt' where item: "item = (k', rt')" by (cases item)
  have dist: "distinct (map fst rts)" and fresh: "map_of rts k' = None"
    using Cons.prems by (simp_all add: item map_of_eq_None_iff)
  note IH = Cons.IH[OF dist, of "room_step s (k', rt') acc"]
  have step: "map_of (snd (fold (room_step s) (item # rts) acc)) k =
     (case map_of rts k of
        None \<Rightarrow> map_of (snd (room_step s (k', rt') acc)) k
      | Some rt \<Rightarrow>
          (case map_of (pricing s) k of
             None \<Rightarrow> map_of (snd (room_step s (k', rt') acc)) k
           | Some pr \<Rightarrow> Some (room_entry s k rt pr)))"
    using IH by (simp add: item)
  show ?case
  proof (cases "k' = k")
    case True
    have "map_of (snd (room_step s (k, rt') acc)) k =
            (case map_of (pricing s) k of
               None \<Rightarrow> map_of (snd acc) k
             | Some pr \<Rightarrow> Some (room_entry s k rt' pr))"
      by (simp add: room_step_snd update_conv' split: option.splits)
    then show ?thesis
      using fresh unfolding step by (simp add: item True split: option.splits)
  next
    case False
    have "map_of (snd (room_step s (k', rt') acc)) k = map_of (snd acc) k"
      using False by (simp add: room_step_snd update_conv' split: option.splits)
    then show ?thesis
      using False unfolding step by (simp add: item split: option.splits)
  qed
qed

lemma by_room_type_lookup:
  assumes "distinct (map fst rts)"
  shows "map_of (by_room_type (simulate_season rts s)) k =
     (case map_of rts k of
        None \<Rightarrow> None
      | Some rt \<Rightarrow>
          (case map_of (pricing s) k of
             None \<Rightarrow> None
           | Some pr \<Rightarrow> Some (room_entry s k rt pr)))"
proof -
  have "by_room_type (simulate_season rts s) = snd (fold (room_step s) rts (0, []))"
    by (simp add: simulate_season_def split: prod.splits)
  then show ?thesis
    by (simp add: fold_room_step_lookup[OF assms] split: option.splits)
qed

lemma per_season_untouched:
  assumes "n \<notin> name ` set seasons"
  shows "map_of (per_season (fold (season_step rts) seasons r0)) n = map_of (per_season r0) n"
  using assms
  by (induction seasons arbitrary: r0) (auto simp add: season_step_def Let_def update_conv')

lemma per_season_lookup:
  assumes "distinct (map name seasons)" and "s \<in> set seasons"
  shows "map_of (per_season (fold (season_step rts) seasons r0)) (name s)
           = Some (simulate_season rts s)"
  using assms
proof (induction seasons arbitrary: r0)
  case Nil
  then show ?case by simp
next
  case (Cons s' seasons)
  show ?case
  proof (cases "s = s'")
    case True
    have "name s' \<notin> name ` set seasons"
      using Cons.prems(1) by simp
    then show ?thesis
      by (simp add: True per_season_untouched) (simp add: season_step_def Let_def update_conv')
  next
    case False
    then show ?thesis
      using Cons by simp
  qed
qed

text \<open>
  C10. In \<open>simulate_annual_revenue\<close> (the room types are dict keys, hence distinct; the
  season names are distinct, as the keys of the configuration they are built from), a room
  type of the inventory that the season prices but that has no entry in the season's
  occupancy mapping gets occupancy 0: it is present in the season's \<open>by_room_type\<close>
  with zero occupied nights and zero revenue. A room type without a pricing entry has no
  entry in \<open>by_room_type\<close> at all.
\<close>

theorem missing_occupancy_row:
  assumes "distinct (map fst room_types)" and "distinct (map name seasons)"
    and "season \<in> set seasons"
    and "map_of room_types rt_name = Some room_type"
    and "map_of (pricing season) rt_name = Some pr"
    and "map_of (occupancy season) rt_name = None"
  shows "\<exists>res. map_of (per_season (simulate_annual_revenue room_types seasons)) (name season)
                 = Some res
           \<and> map_of (by_room_type res) rt_name =
                Some \<lparr>nightly_rate = equivalent_nightly_rate pr, occupancy_rate = 0,
                      total_room_nights = count room_type * days season,
                      occupied_nights = 0, revenue = 0\<rparr>
           \<and> (\<forall>other. map_of (pricing season) other = None
                  \<longrightarrow> map_of (by_room_type res) other = None)"
proof (intro exI conjI allI impI)
  show "map_of (per_season (simulate_annual_revenue room_types seasons)) (name season)
          = Some (simulate_season room_types season)"
    unfolding simulate_annual_revenue_def using assms(2,3) by (rule per_season_lookup)
  show "map_of (by_room_type (simulate_season room_types season)) rt_name =
          Some \<lparr>nightly_rate = equivalent_nightly_rate pr, occupancy_rate = 0,
                total_room_nights = count room_type * days season,
                occupied_nights = 0, revenue = 0\<rparr>"
    using assms(4-6) by (simp add: by_room_type_lookup[OF assms(1)] room_entry_def)
  show "map_of (by_room_type (simulate_season room_types season)) other = None"
    if "map_of (pricing season) other = None" for other
    using that by (simp add: by_room_type_lookup[OF assms(1)] split: option.splits)
qed


theorem missing_occupancy_row_witness:
  "map_of (per_season (simulate_annual_revenue
       [(''studio'', \<lparr>RoomType.name = ''studio'', count = 6\<rparr>),
        (''suite'', \<lparr>RoomType.name = ''suite'', count = 2\<rparr>)]
       [\<lparr>name = ''high'', days = 90, occupancy = [(''suite'', 1 / 2)],
         pricing = [(''studio'',
           \<lparr>price_per_night = 150, price_per_week = 950, price_per_month = 0,
            share_nightly = 6 / 10, share_weekly = 3 / 10, share_monthly = 1 / 10\<rparr>)]\<rparr>]))
     ''high''
   = Some \<lparr>season_revenue = 0,
            by_room_type = [(''studio'',
              \<lparr>nightly_rate = 915 / 7, occupancy_rate = 0, total_room_nights = 540,
               occupied_nights = 0, revenue = 0\<rparr>)]\<rparr>"
proof -
  let ?pr = "\<lparr>price_per_night = 150, price_per_week = 950, price_per_month = 0,
            share_nightly = 6 / 10, share_weekly = 3 / 10, share_monthly = 1 / 10\<rparr>"
  let ?studio = "\<lparr>RoomType.name = ''studio'', count = 6\<rparr>"
  let ?rts = "[(''studio'', ?studio), (''suite'', \<lparr>RoomType.name = ''suite'', count = 2\<rparr>)]"
  let ?season = "\<lparr>name = ''high'', days = 90, occupancy = [(''suite'', 1 / 2)],
         pricing = [(''studio'', ?pr)]\<rparr>"
  have run: "simulate_annual_revenue ?rts [?season]
     = \<lparr>per_season = [(''high'', \<lparr>season_revenue = 0,
            by_room_type = [(''studio'',
              \<lparr>nightly_rate = 915 / 7, occupancy_rate = 0, total_room_nights = 540,
               occupied_nights = 0, revenue = 0\<rparr>)]\<rparr>)], total_revenue = 0\<rparr>"
    by code_simp
  from missing_occupancy_row [of ?rts "[?season]" ?season "''studio''" ?studio ?pr]
  show ?thesis
    unfolding run by simp
qed

subsection \<open>Scenario scaling\<close>

lemma fold_update_lookup:
  assumes "distinct (map fst items)"
  shows "map_of (fold (\<lambda>item acc. case item of (k, v) \<Rightarrow> AList.update k (f v) acc) items acc0) k
           = (case map_of items k of None \<Rightarrow> map_of acc0 k | Some v \<Rightarrow> Some (f v))"
  using assms
proof (induction items arbitrary: acc0)
  case Nil
  show ?case by simp
next
  case (Cons item items)
  obtain k' v' where item: "item = (k', v')" by (cases item)
  have dist: "distinct (map fst items)" and fresh: "map_of items k' = None"
    using Cons.prems by (simp_all add: item map_of_eq_None_iff)
  show ?case
    using fresh by (auto simp add: item Cons.IH[OF dist] update_conv' split: option.splits)
qed

lemma fold_update_values:
  assumes "map_of (fold (\<lambda>item acc. case item of (k, v) \<Rightarrow> AList.update k (f v) acc) items acc0) k
             = Some w"
  shows "(\<exists>v. w = f v) \<or> map_of acc0 k = Some w"
  using assms
proof (induction items arbitrary: acc0)
  case Nil
  then show ?case by simp
next
  case (Cons item items)
  obtain k' v' where item: "item = (k', v')" by (cases item)
  from Cons.prems have "(\<exists>v. w = f v) \<or> map_of (AList.update k' (f v') acc0) k = Some w"
    by (intro Cons.IH) (simp add: item)
  then show ?case
    by (auto simp add: update_conv' split: if_splits)
qed

lemma scenario_occupancy_lookup:
  assumes "distinct (map fst occ_base_items)"
  shows "map_of (scenario_occupancy occ_factor occ_base_items) rt_name
           = map_option (\<lambda>occ_base. min 1 (occ_base * occ_factor)) (map_of occ_base_items rt_name)"
  unfolding scenario_occupancy_def Let_def
  by (simp add: fold_update_lookup[OF assms] split: option.splits)

lemma scenario_occupancy_capped:
  assumes "map_of (scenario_occupancy occ_factor occ_base_items) rt_name = Some occ"
  shows "occ \<le> 1"
  using fold_update_values[of "\<lambda>occ_base. min 1 (occ_base * occ_factor)" occ_base_items "[]" rt_name occ]
    assms unfolding scenario_occupancy_def Let_def by auto

lemma scenario_pricing_lookup:
  assumes "distinct (map fst pricing_base_items)"
  shows "map_of (scenario_pricing price_factor pricing_base_items) rt_name
           = map_option
               (\<lambda>pb. \<lparr>price_per_night = price_per_night pb * price_factor,
                      price_per_week = price_per_week pb * price_factor,
                      price_per_month = price_per_month pb * price_factor,
                      share_nightly = share_nightly pb,
                      share_weekly = share_weekly pb,
                      share_monthly = share_monthly pb\<rparr>)
               (map_of pricing_base_items rt_name)"
  unfolding scenario_pricing_def
  by (simp add: fold_update_lookup[OF assms] split: option.splits)

text \<open>
  C3. The seasons built for a scenario are the entries of the base configuration, one for
  each and in the same order, under the same names and with the same days. In each of them
  every occupancy is at most 1, the occupancy of a room type is
  \<open>min 1 (base_occupancy * occ_factor)\<close>, and its three tenor prices are the base prices times
  \<open>price_factor\<close>, uncapped, the shares unchanged (the base mappings being dicts, their keys
  are distinct).
\<close>

theorem scenario_seasons_scaled:
  "map name (scenario_seasons occ_factor price_factor seasons_base_config)
     = map fst seasons_base_config
   \<and> (\<forall>i < length seasons_base_config.
        days (scenario_seasons occ_factor price_factor seasons_base_config ! i)
          = cfg_days (snd (seasons_base_config ! i))
      \<and> (\<forall>rt_name occ.
            map_of (occupancy (scenario_seasons occ_factor price_factor seasons_base_config ! i))
              rt_name = Some occ \<longrightarrow> occ \<le> 1)
      \<and> (distinct (map fst (occupancy_base (snd (seasons_base_config ! i)))) \<longrightarrow>
          (\<forall>rt_name.
             map_of (occupancy (scenario_seasons occ_factor price_factor seasons_base_config ! i))
               rt_name
             = map_option (\<lambda>occ_base. min 1 (occ_base * occ_factor))
                 (map_of (occupancy_base (snd (seasons_base_config ! i))) rt_name)))
      \<and> (distinct (map fst (pricing_base (snd (seasons_base_config ! i)))) \<longrightarrow>
          (\<forall>rt_name.
             map_of (pricing (scenario_seasons occ_factor price_factor seasons_base_config ! i))
               rt_name
             = map_option
                 (\<lambda>pb. \<lparr>price_per_night = price_per_night pb * price_factor,
                        price_per_week = price_per_week pb * price_factor,
                        price_per_month = price_per_month pb * price_factor,
                        share_nightly = share_nightly pb,
                        share_weekly = share_weekly pb,
                        share_monthly = share_monthly pb\<rparr>)
                 (map_of (pricing_base (snd (seasons_base_config ! i))) rt_name))))"
proof (intro conjI allI impI)
  show "map name (scenario_seasons occ_factor price_factor seasons_base_config)
          = map fst seasons_base_config"
    by (simp add: scenario_seasons_def split_beta)
next
  fix i
  assume i: "i < length seasons_base_config"
  let ?cfg = "snd (seasons_base_config ! i)"
  let ?season = "scenario_seasons occ_factor price_factor seasons_base_config ! i"
  have season: "?season = \<lparr>name = fst (seasons_base_config ! i), days = cfg_days ?cfg,
             occupancy = scenario_occupancy occ_factor (occupancy_base ?cfg),
             pricing = scenario_pricing price_factor (pricing_base ?cfg)\<rparr>"
    using i by (simp add: scenario_seasons_def split_beta)
  show "days ?season = cfg_days ?cfg"
    by (simp add: season)
  show "occ \<le> 1" if "map_of (occupancy ?season) rt_name = Some occ" for rt_name occ
    using that by (simp add: season scenario_occupancy_capped)
  show "map_of (occupancy ?season) rt_name
          = map_option (\<lambda>occ_base. min 1 (occ_base * occ_factor))
              (map_of (occupancy_base ?cfg) rt_name)"
    if "distinct (map fst (occupancy_base ?cfg))" for rt_name
    using that by (simp add: season scenario_occupancy_lookup)
  show "map_of (pricing ?season) rt_name
          = map_option
              (\<lambda>pb. \<lparr>price_per_night = price_per_night pb * price_factor,
                     price_per_week = price_per_week pb * price_factor,
                     price_per_month = price_per_month pb * price_factor,
                     share_nightly = share_nightly pb,
                     share_weekly = share_weekly pb,
                     share_monthly = share_monthly pb\<rparr>)
              (map_of (pricing_base ?cfg) rt_name)"
    if "distinct (map fst (pricing_base ?cfg))" for rt_name
    using that by (simp add: season scenario_pricing_lookup)
qed

theorem scenario_seasons_scaled_witness:
  "scenario_seasons (11 / 10) (12 / 10)
       [(''high'', \<lparr>cfg_days = 90,
           occupancy_base = [(''studio'', 95 / 100), (''suite'', 1 / 2)],
           pricing_base = [(''studio'',
             \<lparr>price_per_night = 150, price_per_week = 950, price_per_month = 0,
              share_nightly = 6 / 10, share_weekly = 3 / 10, share_monthly = 1 / 10\<rparr>)]\<rparr>),
        (''low'', \<lparr>cfg_days = 120,
           occupancy_base = [(''studio'', 6 / 10)],
           pricing_base = [(''studio'',
             \<lparr>price_per_night = 100, price_per_week = 600, price_per_month = 2000,
              share_nightly = 1 / 2, share_weekly = 1 / 4, share_monthly = 1 / 4\<rparr>)]\<rparr>)]
   = [\<lparr>name = ''high'', days = 90, occupancy = [(''studio'', 1), (''suite'', 11 / 20)],
       pricing = [(''studio'',
         \<lparr>price_per_night = 180, price_per_week = 1140, price_per_month = 0,
          share_nightly = 6 / 10, share_weekly = 3 / 10, share_monthly = 1 / 10\<rparr>)]\<rparr>,
      \<lparr>name = ''low'', days = 120, occupancy = [(''studio'', 66 / 100)],
       pricing = [(''studio'',
         \<lparr>price_per_night = 120, price_per_week = 720, price_per_month = 2400,
          share_nightly = 1 / 2, share_weekly = 1 / 4, share_monthly = 1 / 4\<rparr>)]\<rparr>]
   \<and> map name (scenario_seasons (11 / 10) (12 / 10)
       [(''high'', \<lparr>cfg_days = 90,
           occupancy_base = [(''studio'', 95 / 100), (''suite'', 1 / 2)],
           pricing_base = [(''studio'',
             \<lparr>price_per_night = 150, price_per_week = 950, price_per_month = 0,
              share_nightly = 6 / 10, share_weekly = 3 / 10, share_monthly = 1 / 10\<rparr>)]\<rparr>),
        (''low'', \<lparr>cfg_days = 120,
           occupancy_base = [(''studio'', 6 / 10)],
           pricing_base = [(''studio'',
             \<lparr>price_per_night = 100, price_per_week = 600, price_per_month = 2000,
              share_nightly = 1 / 2, share_weekly = 1 / 4, share_monthly = 1 / 4\<rparr>)]\<rparr>)])
     = [''high'', ''low'']"
proof -
  let ?cfgs = "[(''high'', \<lparr>cfg_days = 90,
           occupancy_base = [(''studio'', 95 / 100), (''suite'', 1 / 2)],
           pricing_base = [(''studio'',
             \<lparr>price_per_night = 150, price_per_week = 950, price_per_month = 0,
              share_nightly = 6 / 10, share_weekly = 3 / 10, share_monthly = 1 / 10\<rparr>)]\<rparr>),
        (''low'', \<lparr>cfg_days = 120,
           occupancy_base = [(''studio'', 6 / 10)],
           pricing_base = [(''studio'',
             \<lparr>price_per_night = 100, price_per_week = 600, price_per_month = 2000,
              share_nightly = 1 / 2, share_weekly = 1 / 4, share_monthly = 1 / 4\<rparr>)]\<rparr>)]"
  have run: "scenario_seasons (11 / 10) (12 / 10) ?cfgs
   = [\<lparr>name = ''high'', days = 90, occupancy = [(''studio'', 1), (''suite'', 11 / 20)],
       pricing = [(''studio'',
         \<lparr>price_per_night = 180, price_per_week = 1140, price_per_month = 0,
          share_nightly = 6 / 10, share_weekly = 3 / 10, share_monthly = 1 / 10\<rparr>)]\<rparr>,
      \<lparr>name = ''low'', days = 120, occupancy = [(''studio'', 66 / 100)],
       pricing = [(''studio'',
         \<lparr>price_per_night = 120, price_per_week = 720, price_per_month = 2400,
          share_nightly = 1 / 2, share_weekly = 1 / 4, share_monthly = 1 / 4\<rparr>)]\<rparr>]"
    by code_simp
  from scenario_seasons_scaled [of "11 / 10" "12 / 10" ?cfgs]
  show ?thesis
    using run by simp
qed

subsection \<open>Debt service coverage\<close>

lemma project_year_dscr:
  "dscr_t (project_year inp yr) =
     (if 0 < debt_service_t (project_year inp yr)
      then Some (cfads_t (project_year inp yr) / debt_service_t (project_year inp yr))
      else None)"
  by (simp add: project_year_def Let_def split: prod.splits)

lemma project_year_after_term:
  assumes "int (length (amort_schedule inp)) < yr"
  shows "debt_service_t (project_year inp yr) = 0"
  using assms by (simp add: project_year_def Let_def split: prod.splits)

lemma project_year_year: "year_t (project_year inp yr) = yr"
  by (simp add: project_year_def Let_def split: prod.splits)

text \<open>
  C8. The projection has one row for each year 1, ..., \<open>horizon_years\<close>. In every row the DSCR
  is \<open>None\<close> exactly when the year's debt service is not strictly positive, and is
  \<open>cfads / debt_service\<close> when it is. Within the schedule the debt service is the payment of
  the year's row; a year after the last row of the schedule has debt service 0 and DSCR
  \<open>None\<close>, never a number.
\<close>

theorem dscr_null_iff_no_debt_service:
  "map year_t (project_years inp) = [1..horizon_years inp]
   \<and> (\<forall>row \<in> set (project_years inp).
        (dscr_t row = None \<longleftrightarrow> \<not> 0 < debt_service_t row)
      \<and> (0 < debt_service_t row \<longrightarrow> dscr_t row = Some (cfads_t row / debt_service_t row))
      \<and> (year_t row \<le> int (length (amort_schedule inp)) \<longrightarrow>
           debt_service_t row = payment (amort_schedule inp ! nat (year_t row - 1)))
      \<and> (int (length (amort_schedule inp)) < year_t row \<longrightarrow>
           debt_service_t row = 0 \<and> dscr_t row = None)
      \<and> 1 \<le> year_t row \<and> year_t row \<le> horizon_years inp)"
proof (intro conjI ballI)
  show "map year_t (project_years inp) = [1..horizon_years inp]"
    by (simp add: project_years_def comp_def project_year_year)
next
  fix row
  assume "row \<in> set (project_years inp)"
  then obtain yr where yr: "1 \<le> yr" "yr \<le> horizon_years inp"
    and row: "row = project_year inp yr"
    unfolding project_years_def by auto
  have in_term: "debt_service_t (project_year inp yr) = payment (amort_schedule inp ! nat (yr - 1))"
    if "yr \<le> int (length (amort_schedule inp))"
    using that yr(1) by (simp add: project_year_def Let_def split: prod.splits)
  show "dscr_t row = None \<longleftrightarrow> \<not> 0 < debt_service_t row"
    unfolding row by (simp add: project_year_dscr)
  show "0 < debt_service_t row \<longrightarrow> dscr_t row = Some (cfads_t row / debt_service_t row)"
    unfolding row by (simp add: project_year_dscr)
  show "year_t row \<le> int (length (amort_schedule inp)) \<longrightarrow>
           debt_service_t row = payment (amort_schedule inp ! nat (year_t row - 1))"
    unfolding row using in_term by (simp add: project_year_year)
  show "int (length (amort_schedule inp)) < year_t row \<longrightarrow>
           debt_service_t row = 0 \<and> dscr_t row = None"
    unfolding row using project_year_after_term[of inp yr]
    by (simp add: project_year_dscr project_year_year)
  show "1 \<le> year_t row" "year_t row \<le> horizon_years inp"
    unfolding row using yr by (simp_all add: project_year_year)
qed

theorem dscr_null_iff_no_debt_service_witness:
  "map year_t (project_years
     \<lparr>ebitda_year1 = 900, growth_rate = 0,
      amort_schedule =
        [\<lparr>year = 1, payment = 500, interest = 0, principal = 500, remaining = 500\<rparr>,
         \<lparr>year = 2, payment = 500, interest = 0, principal = 500, remaining = 0\<rparr>],
      annual_depreciation = 100, tax_rate = 1 / 4, horizon_years = 3,
      exit_multiple = 10, exit_cost_rate = 1 / 20\<rparr>) = [1, 2, 3]
   \<and> map debt_service_t (project_years
     \<lparr>ebitda_year1 = 900, growth_rate = 0,
      amort_schedule =
        [\<lparr>year = 1, payment = 500, interest = 0, principal = 500, remaining = 500\<rparr>,
         \<lparr>year = 2, payment = 500, interest = 0, principal = 500, remaining = 0\<rparr>],
      annual_depreciation = 100, tax_rate = 1 / 4, horizon_years = 3,
      exit_multiple = 10, exit_cost_rate = 1 / 20\<rparr>) = [500, 500, 0]
   \<and> map cfads_t (project_years
     \<lparr>ebitda_year1 = 900, growth_rate = 0,
      amort_schedule =
        [\<lparr>year = 1, payment = 500, interest = 0, principal = 500, remaining = 500\<rparr>,
         \<lparr>year = 2, payment = 500, interest = 0, principal = 500, remaining = 0\<rparr>],
      annual_depreciation = 100, tax_rate = 1 / 4, horizon_years = 3,
      exit_multiple = 10, exit_cost_rate = 1 / 20\<rparr>) = [700, 700, 700]
   \<and> map dscr_t (project_years
     \<lparr>ebitda_year1 = 900, growth_rate = 0,
      amort_schedule =
        [\<lparr>year = 1, payment = 500, interest = 0, principal = 500, remaining = 500\<rparr>,
         \<lparr>year = 2, payment = 500, interest = 0, principal = 500, remaining = 0\<rparr>],
      annual_depreciation = 100, tax_rate = 1 / 4, horizon_years = 3,
      exit_multiple = 10, exit_cost_rate = 1 / 20\<rparr>) = [Some (7 / 5), Some (7 / 5), None]"
proof -
  let ?inp = "\<lparr>ebitda_year1 = 900, growth_rate = 0,
      amort_schedule =
        [\<lparr>year = 1, payment = 500, interest = 0, principal = 500, remaining = 500\<rparr>,
         \<lparr>year = 2, payment = 500, interest = 0, principal = 500, remaining = 0\<rparr>],
      annual_depreciation = 100, tax_rate = 1 / 4, horizon_years = 3,
      exit_multiple = 10, exit_cost_rate = 1 / 20\<rparr>"
  have run: "project_years ?inp =
     [\<lparr>year_t = 1, ebitda_t = 900, cfads_t = 700, debt_service_t = 500,
        dscr_t = Some (7 / 5), interest_t = 0, principal_t = 500, remaining_debt_t = 500,
        fcfe_t = 200\<rparr>,
      \<lparr>year_t = 2, ebitda_t = 900, cfads_t = 700, debt_service_t = 500,
        dscr_t = Some (7 / 5), interest_t = 0, principal_t = 500, remaining_debt_t = 0,
        fcfe_t = 200\<rparr>,
      \<lparr>year_t = 3, ebitda_t = 900, cfads_t = 700, debt_service_t = 0, dscr_t = None,
        interest_t = 0, principal_t = 0, remaining_debt_t = 0, fcfe_t = 9250\<rparr>]"
    by code_simp
  from dscr_null_iff_no_debt_service [of ?inp]
  show ?thesis
    using run by simp
qed

end
